theory Spec2Isabelle
  imports Complex_Main "HOL-Library.Multiset" "HOL-Library.Sublist"
begin

section \<open>Vectors (vectors.go)\<close>

text \<open>
  The Go type \<^verbatim>\<open>float64\<close> is read as a real number: rounding, infinities and NaN are
  outside this development. Every concrete input used below is a small dyadic number on
  which the IEEE operations are exact.
\<close>

type_synonym float64 = real

text \<open>
  \<^verbatim>\<open>type Vector2 [2]float64\<close>. It is the only implementation of the interface
  \<^verbatim>\<open>Vector\<close> in the package, so \<^verbatim>\<open>checkVector2\<close> never panics here and an
  interface value is either a \<open>Vector2\<close> or \<^verbatim>\<open>nil\<close> (an \<open>option\<close> where the code
  compares with \<^verbatim>\<open>nil\<close>).
\<close>

datatype Vector2 = Vector2d float64 float64

fun comp0 :: "Vector2 \<Rightarrow> float64" where
  "comp0 (Vector2d x y) = x"

fun comp1 :: "Vector2 \<Rightarrow> float64" where
  "comp1 (Vector2d x y) = y"

datatype VectorCreator = vector2Creator

text \<open>
  \<^verbatim>\<open>rand.Float64()\<close> reads the global generator. The generator is the sequence of numbers
  it is going to return; a draw returns the head and leaves the tail.
\<close>

type_synonym rng = "nat \<Rightarrow> float64"

definition rand_Float64 :: "rng \<Rightarrow> float64 \<times> rng" where
  "rand_Float64 g = (g 0, \<lambda>n. g (Suc n))"

definition Null :: "VectorCreator \<Rightarrow> Vector2" where
  "Null cr = Vector2d 0 0"

definition Add :: "Vector2 \<Rightarrow> Vector2 \<Rightarrow> Vector2" where
  "Add v other = Vector2d (comp0 v + comp0 other) (comp1 v + comp1 other)"

definition Subtract :: "Vector2 \<Rightarrow> Vector2 \<Rightarrow> Vector2" where
  "Subtract v other = Vector2d (comp0 v - comp0 other) (comp1 v - comp1 other)"

definition MulScalar :: "Vector2 \<Rightarrow> float64 \<Rightarrow> Vector2" where
  "MulScalar v other = Vector2d (comp0 v * other) (comp1 v * other)"

definition TransposedMul :: "Vector2 \<Rightarrow> Vector2 \<Rightarrow> float64" where
  "TransposedMul v other = comp0 v * comp0 other + comp1 v * comp1 other"

definition Length :: "Vector2 \<Rightarrow> float64" where
  "Length v = TransposedMul v v"

text \<open>The two arguments of \<^verbatim>\<open>Vector2d(rand.Float64(), rand.Float64())\<close> are drawn left to right.\<close>

definition Normalize :: "Vector2 \<Rightarrow> rng \<Rightarrow> Vector2 \<times> rng" where
  "Normalize v g =
     (if Length v = 0
      then (let (x, g1) = rand_Float64 g; (y, g2) = rand_Float64 g1 in (Vector2d x y, g2))
      else (MulScalar v (1 / Length v), g))"

definition DistanceTo :: "Vector2 \<Rightarrow> Vector2 \<Rightarrow> float64" where
  "DistanceTo v other = Length (Subtract v other)"

definition Creator :: "Vector2 \<Rightarrow> VectorCreator" where
  "Creator v = vector2Creator"

text \<open>\<^verbatim>\<open>vector2Creator.New(f)\<close> builds \<^verbatim>\<open>Vector2{f(0), f(1)}\<close>; the component function may
  draw random numbers, so it threads the generator.\<close>

definition New :: "VectorCreator \<Rightarrow> (int \<Rightarrow> rng \<Rightarrow> float64 \<times> rng) \<Rightarrow> rng \<Rightarrow> Vector2 \<times> rng" where
  "New cr f g = (let (x, g1) = f 0 g; (y, g2) = f 1 g1 in (Vector2d x y, g2))"

record Dataset =
  data :: "Vector2 list"
  creator :: VectorCreator

definition AsSlice :: "Dataset \<Rightarrow> Vector2 list" where
  "AsSlice dataset = data dataset"

definition Count :: "Dataset \<Rightarrow> int" where
  "Count dataset = int (length (data dataset))"

definition IsEmpty :: "Dataset \<Rightarrow> bool" where
  "IsEmpty dataset = (Count dataset = 0)"

fun Max_loop :: "Vector2 list \<Rightarrow> Vector2 \<times> float64 \<Rightarrow> Vector2 \<times> float64" where
  "Max_loop [] (result, len) = (result, len)"
| "Max_loop (vec # rest) (result, len) =
     (let vecLen = Length vec
      in if vecLen > len then Max_loop rest (vec, vecLen) else Max_loop rest (result, len))"

definition Max_vec :: "Dataset \<Rightarrow> Vector2" where
  "Max_vec dataset =
     (let result = Null (creator dataset)
      in fst (Max_loop (AsSlice dataset) (result, Length result)))"

section \<open>Clusterer (clusterer.go)\<close>

text \<open>\<^verbatim>\<open>type Cluster int\<close> and \<^verbatim>\<open>type CentroidClusterer []Vector\<close>.\<close>

type_synonym Cluster = int

type_synonym CentroidClusterer = "Vector2 list"

text \<open>
  \<open>EmptyClusterer\<close> is the error value that \<^verbatim>\<open>FindCluster\<close> returns (together with the
  cluster \<open>-1\<close>); the others are run-time panics.
\<close>

datatype error = EmptyClusterer | IndexOutOfRange | NegativeLen | NilDereference

definition Centroids :: "CentroidClusterer \<Rightarrow> (Cluster \<rightharpoonup> Vector2)" where
  "Centroids clusterer =
     fold (\<lambda>(cluster, centroid) mapping. mapping(int cluster \<mapsto> centroid))
       (enumerate 0 clusterer) Map.empty"

definition Clusters :: "CentroidClusterer \<Rightarrow> Cluster list" where
  "Clusters clusterer =
     (let len = length clusterer
      in fold (\<lambda>i clusters. clusters[i := int i]) [0..<len] (replicate len 0))"

text \<open>
  \<^verbatim>\<open>FindCluster\<close> ranges over the map that \<^verbatim>\<open>Centroids()\<close> returns. Go does not specify
  the order in which a \<^verbatim>\<open>range\<close> visits the keys of a map, so the order of the visit is
  a parameter: the list \<open>order\<close> of the keys as the loop meets them.
\<close>

fun FindCluster_loop ::
  "(Cluster \<rightharpoonup> Vector2) \<Rightarrow> Vector2 \<Rightarrow> Cluster list \<Rightarrow> Cluster \<times> Vector2 \<Rightarrow> Cluster \<times> Vector2" where
  "FindCluster_loop m v [] (assignedCluster, assignedClusterCentroid) =
     (assignedCluster, assignedClusterCentroid)"
| "FindCluster_loop m v (cluster # rest) (assignedCluster, assignedClusterCentroid) =
     (case m cluster of
        None \<Rightarrow> FindCluster_loop m v rest (assignedCluster, assignedClusterCentroid)
      | Some centroid \<Rightarrow>
          if DistanceTo centroid v < DistanceTo assignedClusterCentroid v
          then FindCluster_loop m v rest (cluster, centroid)
          else FindCluster_loop m v rest (assignedCluster, assignedClusterCentroid))"

definition FindCluster :: "CentroidClusterer \<Rightarrow> Cluster list \<Rightarrow> Vector2 \<Rightarrow> error + Cluster" where
  "FindCluster clusterer order v =
     (if card (dom (Centroids clusterer)) = 0 then Inl EmptyClusterer
      else case Centroids clusterer 0 of
             None \<Rightarrow> Inl NilDereference
           | Some centroid0 \<Rightarrow>
               Inr (fst (FindCluster_loop (Centroids clusterer) v order (0, centroid0))))"

text \<open>An order is one a \<^verbatim>\<open>range\<close> can take when it meets every key of the map once.\<close>

definition range_order :: "CentroidClusterer \<Rightarrow> Cluster list \<Rightarrow> bool" where
  "range_order clusterer order \<longleftrightarrow> distinct order \<and> set order = dom (Centroids clusterer)"

text \<open>
  \<^verbatim>\<open>ClusteredPartition\<close> calls \<^verbatim>\<open>FindCluster\<close> once for each vector; \<open>orders n\<close> is the
  order of the map visit in the \<open>n\<close>-th call. Reading a missing key of the partition
  gives the nil slice, to which \<^verbatim>\<open>append\<close> adds the vector.
\<close>

fun ClusteredPartition_loop ::
  "CentroidClusterer \<Rightarrow> (nat \<Rightarrow> Cluster list) \<Rightarrow> Vector2 list \<Rightarrow> (Cluster \<rightharpoonup> Vector2 list)
     \<Rightarrow> error + (Cluster \<rightharpoonup> Vector2 list)" where
  "ClusteredPartition_loop clusterer orders [] partition' = Inr partition'"
| "ClusteredPartition_loop clusterer orders (vec # rest) partition' =
     (case FindCluster clusterer (orders 0) vec of
        Inl err \<Rightarrow> Inl err
      | Inr cluster \<Rightarrow>
          ClusteredPartition_loop clusterer (\<lambda>n. orders (Suc n)) rest
            (partition'(cluster \<mapsto> (case partition' cluster of None \<Rightarrow> [] | Some vs \<Rightarrow> vs) @ [vec])))"

definition ClusteredPartition ::
  "CentroidClusterer \<Rightarrow> (nat \<Rightarrow> Cluster list) \<Rightarrow> Dataset \<Rightarrow> error + (Cluster \<rightharpoonup> Vector2 list)" where
  "ClusteredPartition clusterer orders dataset =
     ClusteredPartition_loop clusterer orders (AsSlice dataset) Map.empty"

section \<open>K-Means (clusterer.go)\<close>

text \<open>
  A \<^verbatim>\<open>Sampler\<close> is any Go function \<^verbatim>\<open>func(k int, max float64) Vector\<close>: it may read
  and change a state of its own (\<open>'s\<close>) and it may not return (\<open>None\<close>).
\<close>

type_synonym 's Sampler = "int \<Rightarrow> float64 \<Rightarrow> 's \<Rightarrow> (Vector2 \<times> 's) option"

partial_function (option) uniformSampler_loop ::
  "VectorCreator \<Rightarrow> Vector2 \<Rightarrow> rng \<Rightarrow> (Vector2 \<times> rng) option" where
  "uniformSampler_loop creator' vec g =
     (if Length vec = 0 \<or> Length vec > 1
      then (case New creator' (\<lambda>_. rand_Float64) g of
              (vec', g') \<Rightarrow> uniformSampler_loop creator' vec' g')
      else Some (vec, g))"

definition uniformSampler :: "VectorCreator \<Rightarrow> rng Sampler" where
  "uniformSampler creator' k max' g =
     (case uniformSampler_loop creator' (Null creator') g of
        None \<Rightarrow> None
      | Some (vec, g') \<Rightarrow> Some (MulScalar vec max', g'))"

text \<open>The method \<^verbatim>\<open>Collect\<close> is named \<open>Collect_bucket\<close>: \<open>Collect\<close> is the set
  comprehension of HOL.\<close>

record bucketCollector =
  average :: "Vector2 option"
  normalization :: int

definition Collect_bucket :: "bucketCollector \<Rightarrow> Vector2 \<Rightarrow> bucketCollector" where
  "Collect_bucket collector vec =
     collector\<lparr>average := (case average collector of
                              None \<Rightarrow> Some vec
                            | Some a \<Rightarrow> Some (Add a vec)),
               normalization := normalization collector + 1\<rparr>"

definition Average :: "bucketCollector \<Rightarrow> Vector2 option" where
  "Average collector =
     (case average collector of
        None \<Rightarrow> None
      | Some a \<Rightarrow> Some (MulScalar a (1 / real_of_int (normalization collector))))"

text \<open>The inner loop of \<^verbatim>\<open>collectClusters\<close>: the scan of the centroid slice in index order.\<close>

fun nearest_loop :: "Vector2 \<Rightarrow> (nat \<times> Vector2) list \<Rightarrow> nat \<times> float64 \<Rightarrow> nat \<times> float64" where
  "nearest_loop record [] (cluster, distToCluster) = (cluster, distToCluster)"
| "nearest_loop record ((k, centroid) # rest) (cluster, distToCluster) =
     (let distToCentroid = DistanceTo record centroid
      in if distToCentroid < distToCluster
         then nearest_loop record rest (k, distToCentroid)
         else nearest_loop record rest (cluster, distToCluster))"

text \<open>
  The body of the outer loop up to the choice of the bucket (lines 142 to 150).
  \<^verbatim>\<open>centroids[cluster]\<close> with \<^verbatim>\<open>cluster := 0\<close> is read before the scan: on an empty
  centroid slice this is the index-out-of-range panic.
\<close>

definition nearest_centroid :: "Vector2 list \<Rightarrow> Vector2 \<Rightarrow> error + nat" where
  "nearest_centroid centroids record =
     (case centroids of
        [] \<Rightarrow> Inl IndexOutOfRange
      | centroid0 # _ \<Rightarrow>
          Inr (fst (nearest_loop record (enumerate 0 centroids)
                      (0, DistanceTo centroid0 record))))"

fun collectClusters_loop ::
  "Vector2 list \<Rightarrow> Vector2 list \<Rightarrow> bucketCollector list \<Rightarrow> error + bucketCollector list" where
  "collectClusters_loop [] centroids buckets = Inr buckets"
| "collectClusters_loop (record # rest) centroids buckets =
     (case nearest_centroid centroids record of
        Inl err \<Rightarrow> Inl err
      | Inr cluster \<Rightarrow>
          collectClusters_loop rest centroids
            (buckets[cluster := Collect_bucket (buckets ! cluster) record]))"

definition collectClusters :: "Dataset \<Rightarrow> Vector2 list \<Rightarrow> error + bucketCollector list" where
  "collectClusters dataset centroids =
     (let k = length centroids;
          buckets = replicate k \<lparr>average = None, normalization = 0\<rparr>
      in collectClusters_loop (AsSlice dataset) centroids buckets)"

text \<open>\<^verbatim>\<open>createNewCentroids\<close> updates the centroid slice in place and returns the deltas;
  the model returns both. Its only caller passes the buckets of \<^verbatim>\<open>collectClusters\<close>, one
  for each centroid, so \<^verbatim>\<open>buckets[i]\<close> is in range (lemma \<open>collectClusters_buckets\<close>).\<close>

definition createNewCentroids ::
  "Vector2 list \<Rightarrow> bucketCollector list \<Rightarrow> Vector2 list \<times> float64 list" where
  "createNewCentroids centroids buckets =
     (let k = length centroids
      in fold (\<lambda>i (centroids, deltas).
                 case Average (buckets ! i) of
                   None \<Rightarrow> (centroids, deltas)
                 | Some newCentroid \<Rightarrow>
                     (centroids[i := newCentroid],
                      deltas[i := DistanceTo (centroids ! i) newCentroid]))
           [0..<k] (centroids, replicate k 0))"

definition maxDelta_of :: "float64 list \<Rightarrow> float64" where
  "maxDelta_of deltas = fold (\<lambda>delta maxDelta. if delta > maxDelta then delta else maxDelta) deltas 0"

text \<open>
  The refinement loop of \<^verbatim>\<open>KMeansWithCentroids\<close>. \<^verbatim>\<open>maxDelta\<close> starts at \<open>1.0\<close>, so the
  body runs at least once; the loop may run forever, and then the value is \<open>None\<close>.
\<close>

partial_function (option) KMeansWithCentroids_loop ::
  "Dataset \<Rightarrow> Vector2 list \<Rightarrow> (error + CentroidClusterer) option" where
  "KMeansWithCentroids_loop dataset centroids =
     (case collectClusters dataset centroids of
        Inl err \<Rightarrow> Some (Inl err)
      | Inr buckets \<Rightarrow>
          (case createNewCentroids centroids buckets of
             (centroids', deltas) \<Rightarrow>
               if maxDelta_of deltas > 1 / 10
               then KMeansWithCentroids_loop dataset centroids'
               else Some (Inr centroids')))"

text \<open>
  The same loop with a bound on the number of passes, to count them: the body is the body
  of \<open>KMeansWithCentroids_loop\<close>, and the value is \<open>None\<close> when the loop has not ended
  within \<open>n\<close> passes.
\<close>

fun KMeansWithCentroids_passes ::
  "nat \<Rightarrow> Dataset \<Rightarrow> Vector2 list \<Rightarrow> (error + CentroidClusterer) option" where
  "KMeansWithCentroids_passes 0 dataset centroids = None"
| "KMeansWithCentroids_passes (Suc n) dataset centroids =
     (case collectClusters dataset centroids of
        Inl err \<Rightarrow> Some (Inl err)
      | Inr buckets \<Rightarrow>
          (case createNewCentroids centroids buckets of
             (centroids', deltas) \<Rightarrow>
               if maxDelta_of deltas > 1 / 10
               then KMeansWithCentroids_passes n dataset centroids'
               else Some (Inr centroids')))"

definition KMeansWithCentroids :: "Dataset \<Rightarrow> Vector2 list \<Rightarrow> (error + CentroidClusterer) option" where
  "KMeansWithCentroids dataset centroids =
     (if IsEmpty dataset then Some (Inr [])
      else KMeansWithCentroids_loop dataset centroids)"

text \<open>
  \<^verbatim>\<open>makeCentroids\<close>: \<^verbatim>\<open>make([]Vector, k)\<close> panics on a negative \<open>k\<close>; the loop then
  fills the positions \<open>0..k-1\<close> in order, which the model writes as appending. The first
  argument of the loop counts the iterations left.
\<close>

fun makeCentroids_loop ::
  "nat \<Rightarrow> int \<Rightarrow> 's Sampler \<Rightarrow> float64 \<Rightarrow> Vector2 list \<Rightarrow> 's \<Rightarrow> (Vector2 list \<times> 's) option" where
  "makeCentroids_loop 0 i sampler maxLen centroids s = Some (centroids, s)"
| "makeCentroids_loop (Suc n) i sampler maxLen centroids s =
     (case sampler i maxLen s of
        None \<Rightarrow> None
      | Some (vec, s') \<Rightarrow> makeCentroids_loop n (i + 1) sampler maxLen (centroids @ [vec]) s')"

definition makeCentroids ::
  "int \<Rightarrow> Dataset \<Rightarrow> 's Sampler \<Rightarrow> 's \<Rightarrow> (error + Vector2 list) option" where
  "makeCentroids k dataset sampler s =
     (if k < 0 then Some (Inl NegativeLen)
      else (let maxLen = Length (Max_vec dataset)
            in case makeCentroids_loop (nat k) 0 sampler maxLen [] s of
                 None \<Rightarrow> None
               | Some (centroids, s') \<Rightarrow> Some (Inr centroids)))"

definition KMeansWithSampler ::
  "Dataset \<Rightarrow> int \<Rightarrow> 's Sampler \<Rightarrow> 's \<Rightarrow> (error + CentroidClusterer) option" where
  "KMeansWithSampler dataset k sampler s =
     (if IsEmpty dataset then Some (Inr [])
      else case makeCentroids k dataset sampler s of
             None \<Rightarrow> None
           | Some (Inl err) \<Rightarrow> Some (Inl err)
           | Some (Inr centroids) \<Rightarrow> KMeansWithCentroids dataset centroids)"

definition KMeans :: "Dataset \<Rightarrow> int \<Rightarrow> rng \<Rightarrow> (error + CentroidClusterer) option" where
  "KMeans dataset k g =
     (if IsEmpty dataset then Some (Inr [])
      else KMeansWithSampler dataset k (uniformSampler (Creator (hd (AsSlice dataset)))) g)"

section \<open>Notions of the specification\<close>

text \<open>The Euclidean norm, for comparison with \<open>Length\<close>.\<close>

definition euclidean_norm :: "Vector2 \<Rightarrow> real" where
  "euclidean_norm v = sqrt ((comp0 v)\<^sup>2 + (comp1 v)\<^sup>2)"

text \<open>The distance of the vector contract: the squared Euclidean norm of the difference,
  written out on the components.\<close>

definition squared_distance :: "Vector2 \<Rightarrow> Vector2 \<Rightarrow> real" where
  "squared_distance a b = (comp0 a - comp0 b)\<^sup>2 + (comp1 a - comp1 b)\<^sup>2"

text \<open>The arithmetic mean of a list of vectors: the component-wise sum divided by the count.\<close>

definition arithmetic_mean :: "Vector2 list \<Rightarrow> Vector2" where
  "arithmetic_mean vs =
     Vector2d (sum_list (map comp0 vs) / real (length vs))
              (sum_list (map comp1 vs) / real (length vs))"

section \<open>Properties of the vector operations\<close>

lemma Length_sum_squares: "Length v = (comp0 v)\<^sup>2 + (comp1 v)\<^sup>2"
  by (simp add: Length_def TransposedMul_def power2_eq_square)

lemma Length_nonneg: "0 \<le> Length v"
  by (simp add: Length_sum_squares)

lemma DistanceTo_sym: "DistanceTo a b = DistanceTo b a"
  by (simp add: DistanceTo_def Length_sum_squares Subtract_def power2_commute)

lemma DistanceTo_self: "DistanceTo a a = 0"
  by (simp add: DistanceTo_def Length_sum_squares Subtract_def)

lemma DistanceTo_squared_distance: "DistanceTo a b = squared_distance a b"
  by (simp add: DistanceTo_def Length_sum_squares Subtract_def squared_distance_def)

lemma MulScalar_one: "MulScalar v 1 = v"
  by (cases v) (simp add: MulScalar_def)

text \<open>
  C3. \<open>Length v\<close> is the inner product of \<open>v\<close> with itself, which is the square of the
  Euclidean norm and not the norm; \<open>DistanceTo a b\<close> is therefore the squared Euclidean
  norm of \<open>a - b\<close>.
\<close>

theorem Length_is_squared_norm:
  "Length v = TransposedMul v v
   \<and> Length v = (euclidean_norm v)\<^sup>2
   \<and> DistanceTo a b = TransposedMul (Subtract a b) (Subtract a b)
   \<and> DistanceTo a b = (euclidean_norm (Subtract a b))\<^sup>2
   \<and> DistanceTo a b = (comp0 a - comp0 b)\<^sup>2 + (comp1 a - comp1 b)\<^sup>2"
  by (simp add: Length_sum_squares DistanceTo_def euclidean_norm_def Subtract_def)
    (simp add: TransposedMul_def power2_eq_square)

text \<open>
  C1. \<open>Normalize\<close> is documented to return a vector of length 1. At \<open>(2, 0)\<close> it returns
  \<open>(1/2, 0)\<close>, whose \<open>Length\<close> is \<open>1/4\<close> and whose Euclidean norm is \<open>1/2\<close>; at the
  null vector with the draws \<open>1/2, 1/2\<close> it returns \<open>(1/2, 1/2)\<close>, whose \<open>Length\<close>
  is \<open>1/2\<close>; with the draws \<open>0, 0\<close> it returns the null vector itself.
\<close>

theorem Normalize_not_unit_length:
  "fst (Normalize (Vector2d 2 0) g) = Vector2d (1/2) 0
   \<and> Length (fst (Normalize (Vector2d 2 0) g)) = 1/4
   \<and> euclidean_norm (fst (Normalize (Vector2d 2 0) g)) = 1/2
   \<and> Length (fst (Normalize (Vector2d 0 0) (\<lambda>n. 1/2))) = 1/2
   \<and> fst (Normalize (Vector2d 0 0) (\<lambda>n. 0)) = Vector2d 0 0"
  by (simp add: Normalize_def Length_def TransposedMul_def MulScalar_def rand_Float64_def
      euclidean_norm_def real_sqrt_divide power2_eq_square)

section \<open>Nearest-centroid lookup\<close>

lemma Centroids_fold:
  "fold (\<lambda>(cluster, centroid) mapping. mapping(int cluster \<mapsto> centroid)) (enumerate n xs) m =
     (\<lambda>k. if int n \<le> k \<and> k < int (n + length xs) then Some (xs ! (nat k - n)) else m k)"
  for xs :: "Vector2 list"
proof (induction xs arbitrary: n m)
  case Nil
  show ?case by (rule ext) auto
next
  case (Cons x xs)
  let ?f = "\<lambda>(cluster, centroid) mapping. mapping(int cluster \<mapsto> (centroid::Vector2))"
  have "fold ?f (enumerate n (x # xs)) m = fold ?f (enumerate (Suc n) xs) (m(int n \<mapsto> x))"
    by simp
  also have "\<dots> = (\<lambda>k. if int (Suc n) \<le> k \<and> k < int (Suc n + length xs)
                        then Some (xs ! (nat k - Suc n)) else (m(int n \<mapsto> x)) k)"
    by (rule Cons.IH)
  also have "\<dots> = (\<lambda>k. if int n \<le> k \<and> k < int (n + length (x # xs))
                        then Some ((x # xs) ! (nat k - n)) else m k)"
  proof (rule ext)
    fix k :: int
    show "(if int (Suc n) \<le> k \<and> k < int (Suc n + length xs)
           then Some (xs ! (nat k - Suc n)) else (m(int n \<mapsto> x)) k) =
          (if int n \<le> k \<and> k < int (n + length (x # xs))
           then Some ((x # xs) ! (nat k - n)) else m k)"
    proof (cases "k = int n")
      case True
      then show ?thesis by simp
    next
      case False
      then have "int n \<le> k \<longleftrightarrow> int (Suc n) \<le> k" by auto
      moreover have "int (Suc n) \<le> k \<Longrightarrow> nat k - n = Suc (nat k - Suc n)" by auto
      ultimately show ?thesis using False by auto
    qed
  qed
  finally show ?case .
qed

lemma Centroids_apply:
  "Centroids clusterer k =
     (if 0 \<le> k \<and> k < int (length clusterer) then Some (clusterer ! nat k) else None)"
  by (simp add: Centroids_def Centroids_fold)

lemma dom_Centroids: "dom (Centroids clusterer) = int ` {..<length clusterer}"
  apply (auto simp: Centroids_apply dom_def split: if_splits)
  by (metis image_iff lessThan_iff nat_int zless_nat_conj int_nat_eq nat_less_iff)

lemma card_dom_Centroids: "card (dom (Centroids clusterer)) = length clusterer"
  by (simp add: dom_Centroids card_image)

lemma FindCluster_loop_min:
  assumes "m a = Some ac" "set order \<subseteq> dom m" "FindCluster_loop m v order (a, ac) = (r, rc)"
  shows "m r = Some rc \<and> DistanceTo rc v \<le> DistanceTo ac v
     \<and> (\<forall>k\<in>set order. DistanceTo rc v \<le> DistanceTo (the (m k)) v)
     \<and> ((r, rc) = (a, ac) \<and> (\<forall>k\<in>set order. DistanceTo ac v \<le> DistanceTo (the (m k)) v)
        \<or> DistanceTo rc v < DistanceTo ac v \<and> r \<in> set order
          \<and> (\<forall>k\<in>set (takeWhile (\<lambda>k. k \<noteq> r) order). DistanceTo rc v < DistanceTo (the (m k)) v))"
  using assms
proof (induction order arbitrary: a ac)
  case Nil
  then show ?case by simp
next
  case (Cons k rest)
  from Cons.prems(2) obtain c where c: "m k = Some c" by auto
  show ?case
  proof (cases "DistanceTo c v < DistanceTo ac v")
    case True
    with Cons.prems c have "FindCluster_loop m v rest (k, c) = (r, rc)" by simp
    from Cons.IH[OF c _ this] Cons.prems(2) True c show ?thesis
      by auto
  next
    case False
    with Cons.prems c have "FindCluster_loop m v rest (a, ac) = (r, rc)" by simp
    from Cons.IH[OF Cons.prems(1) _ this] Cons.prems(2) False c show ?thesis
      by auto
  qed
qed

lemma FindCluster_empty: "FindCluster [] order v = Inl EmptyClusterer"
  by (simp add: FindCluster_def card_dom_Centroids)

lemma FindCluster_nearest:
  assumes ne: "clusterer \<noteq> []" and ro: "range_order clusterer order"
  shows "\<exists>c. FindCluster clusterer order v = Inr c \<and> 0 \<le> c \<and> nat c < length clusterer
     \<and> (\<forall>j<length clusterer. DistanceTo (clusterer ! nat c) v \<le> DistanceTo (clusterer ! j) v)
     \<and> (c = 0 \<or> DistanceTo (clusterer ! nat c) v < DistanceTo (clusterer ! 0) v
          \<and> c \<in> set order
          \<and> (\<forall>k\<in>set (takeWhile (\<lambda>k. k \<noteq> c) order).
                DistanceTo (clusterer ! nat c) v < DistanceTo (clusterer ! nat k) v))"
proof -
  let ?m = "Centroids clusterer"
  from ne have m0: "?m 0 = Some (clusterer ! 0)" by (simp add: Centroids_apply)
  from ro have sub: "set order \<subseteq> dom ?m" and all: "dom ?m \<subseteq> set order"
    by (simp_all add: range_order_def)
  obtain r rc where loop: "FindCluster_loop ?m v order (0, clusterer ! 0) = (r, rc)"
    by (cases "FindCluster_loop ?m v order (0, clusterer ! 0)")
  from ne m0 loop have fc: "FindCluster clusterer order v = Inr r"
    by (simp add: FindCluster_def card_dom_Centroids)
  note L = FindCluster_loop_min[OF m0 sub loop]
  from L have mr: "?m r = Some rc" by blast
  then have r: "0 \<le> r" "nat r < length clusterer" "rc = clusterer ! nat r"
    by (auto simp: Centroids_apply split: if_splits)
  have the_m: "the (?m k) = clusterer ! nat k" if "k \<in> set order" for k
    using that sub by (auto simp: Centroids_apply split: if_splits)
  have mins: "DistanceTo (clusterer ! nat r) v \<le> DistanceTo (clusterer ! j) v"
    if "j < length clusterer" for j
  proof -
    from that have "int j \<in> dom ?m" by (simp add: dom_Centroids)
    with all have "int j \<in> set order" by blast
    with L the_m[of "int j"] r show ?thesis by auto
  qed
  from L r the_m have tie: "r = 0 \<or> DistanceTo (clusterer ! nat r) v < DistanceTo (clusterer ! 0) v
          \<and> r \<in> set order
          \<and> (\<forall>k\<in>set (takeWhile (\<lambda>k. k \<noteq> r) order).
                DistanceTo (clusterer ! nat r) v < DistanceTo (clusterer ! nat k) v)"
    by (fastforce dest: set_takeWhileD)
  from fc r mins tie show ?thesis by blast
qed

lemma takeWhile_upto_int:
  assumes "c < length xs"
  shows "takeWhile (\<lambda>k. k \<noteq> int c) (map int [0..<length xs]) = map int [0..<c]"
proof -
  have "[0..<length xs] = [0..<c] @ c # [Suc c..<length xs]"
    using assms by (metis upt_conv_Cons upt_add_eq_append le0 le_add_diff_inverse less_imp_le_nat add_0)
  then have "map int [0..<length xs] = map int [0..<c] @ int c # map int [Suc c..<length xs]"
    by simp
  then show ?thesis
    by (simp add: takeWhile_tail)
qed

lemma range_order_ascending: "range_order clusterer (map int [0..<length clusterer])"
  by (auto simp: range_order_def dom_Centroids distinct_map inj_on_def)

text \<open>For every visit order the result is a centroid at minimum distance (lemma
  \<open>FindCluster_nearest\<close>); when the visit is in ascending order of the identifiers it is the
  one of smallest identifier among them.\<close>

lemma FindCluster_ascending_least:
  assumes "clusterer \<noteq> []" and "range_order clusterer order"
  shows "\<exists>c. FindCluster clusterer order v = Inr c \<and> 0 \<le> c \<and> nat c < length clusterer
     \<and> (\<forall>j<length clusterer. DistanceTo (clusterer ! nat c) v \<le> DistanceTo (clusterer ! j) v)
     \<and> (c = 0 \<or> DistanceTo (clusterer ! nat c) v < DistanceTo (clusterer ! 0) v
          \<and> c \<in> set order
          \<and> (\<forall>k\<in>set (takeWhile (\<lambda>k. k \<noteq> c) order).
                DistanceTo (clusterer ! nat c) v < DistanceTo (clusterer ! nat k) v))
     \<and> (order = map int [0..<length clusterer] \<longrightarrow>
          (\<forall>j<nat c. DistanceTo (clusterer ! nat c) v < DistanceTo (clusterer ! j) v))"
proof -
  from FindCluster_nearest[OF assms, of v] obtain c where
    c: "FindCluster clusterer order v = Inr c" "0 \<le> c" "nat c < length clusterer"
      "\<forall>j<length clusterer. DistanceTo (clusterer ! nat c) v \<le> DistanceTo (clusterer ! j) v"
      "c = 0 \<or> DistanceTo (clusterer ! nat c) v < DistanceTo (clusterer ! 0) v
          \<and> c \<in> set order
          \<and> (\<forall>k\<in>set (takeWhile (\<lambda>k. k \<noteq> c) order).
                DistanceTo (clusterer ! nat c) v < DistanceTo (clusterer ! nat k) v)"
    by blast
  have "\<forall>j<nat c. DistanceTo (clusterer ! nat c) v < DistanceTo (clusterer ! j) v"
    if asc: "order = map int [0..<length clusterer]"
  proof (cases "c = 0")
    case True
    then show ?thesis by simp
  next
    case False
    from c(2) have ic: "int (nat c) = c" by simp
    from takeWhile_upto_int[OF c(3)] ic asc
    have "takeWhile (\<lambda>k. k \<noteq> c) order = map int [0..<nat c]" by simp
    with False c(5) show ?thesis by auto
  qed
  with c show ?thesis by blast
qed

text \<open>
  C2. \<open>FindCluster\<close> does not always return the smallest identifier among the centroids at
  minimum distance. The centroids 1 and 2 are both at distance 1 from the origin and
  centroid 0 is at distance 50; when the range over the centroid map meets the keys in the
  order 2, 0, 1 the result is 2. In the order 0, 1, 2 the result is 1, and the slice scan of
  \<open>collectClusters\<close> gives 1 on the same input.
\<close>

theorem FindCluster_tie_not_smallest:
  "range_order [Vector2d 5 5, Vector2d 1 0, Vector2d (-1) 0] [2, 0, 1]
   \<and> FindCluster [Vector2d 5 5, Vector2d 1 0, Vector2d (-1) 0] [2, 0, 1] (Vector2d 0 0) = Inr 2
   \<and> DistanceTo (Vector2d 5 5) (Vector2d 0 0) = 50
   \<and> DistanceTo (Vector2d 1 0) (Vector2d 0 0) = 1
   \<and> DistanceTo (Vector2d (-1) 0) (Vector2d 0 0) = 1
   \<and> FindCluster [Vector2d 5 5, Vector2d 1 0, Vector2d (-1) 0] [0, 1, 2] (Vector2d 0 0) = Inr 1
   \<and> nearest_centroid [Vector2d 5 5, Vector2d 1 0, Vector2d (-1) 0] (Vector2d 0 0) = Inr 1"
  by (auto simp: FindCluster_def card_dom_Centroids Centroids_apply range_order_def dom_Centroids
      nearest_centroid_def
      DistanceTo_def Length_def TransposedMul_def Subtract_def lessThan_Suc numeral_3_eq_3)

section \<open>The assignment step\<close>

lemma nearest_loop_min:
  assumes "nearest_loop v (enumerate n (drop n cs)) (cl, d) = (r, dr)"
    and "cl < length cs" and "d = DistanceTo (cs ! cl) v"
    and "\<forall>j<n. d \<le> DistanceTo (cs ! j) v"
    and "\<forall>j<cl. d < DistanceTo (cs ! j) v"
    and "n \<le> length cs"
  shows "r < length cs \<and> dr = DistanceTo (cs ! r) v
     \<and> (\<forall>j<length cs. dr \<le> DistanceTo (cs ! j) v)
     \<and> (\<forall>j<r. dr < DistanceTo (cs ! j) v)"
  using assms
proof (induction "length cs - n" arbitrary: n cl d)
  case 0
  then show ?case by auto
next
  case (Suc m)
  then have n: "n < length cs" by simp
  then have dr: "drop n cs = cs ! n # drop (Suc n) cs"
    by (simp add: Cons_nth_drop_Suc)
  show ?case
  proof (cases "DistanceTo v (cs ! n) < d")
    case True
    with Suc.prems(1) dr have L: "nearest_loop v (enumerate (Suc n) (drop (Suc n) cs)) (n, DistanceTo v (cs ! n)) = (r, dr)"
      by simp
    show ?thesis
    proof (rule Suc.hyps(1)[OF _ L])
      show "m = length cs - Suc n" using Suc.hyps(2) by simp
      show "n < length cs" by (rule n)
      show "DistanceTo v (cs ! n) = DistanceTo (cs ! n) v" by (rule DistanceTo_sym)
      show "\<forall>j<Suc n. DistanceTo v (cs ! n) \<le> DistanceTo (cs ! j) v"
        using True Suc.prems(4) by (auto simp: less_Suc_eq DistanceTo_sym)
      show "\<forall>j<n. DistanceTo v (cs ! n) < DistanceTo (cs ! j) v"
        using True Suc.prems(4) by fastforce
      show "Suc n \<le> length cs" using n by simp
    qed
  next
    case False
    with Suc.prems(1) dr have L: "nearest_loop v (enumerate (Suc n) (drop (Suc n) cs)) (cl, d) = (r, dr)"
      by simp
    show ?thesis
    proof (rule Suc.hyps(1)[OF _ L])
      show "m = length cs - Suc n" using Suc.hyps(2) by simp
      show "cl < length cs" by (rule Suc.prems(2))
      show "d = DistanceTo (cs ! cl) v" by (rule Suc.prems(3))
      show "\<forall>j<Suc n. d \<le> DistanceTo (cs ! j) v"
        using False Suc.prems(4) by (auto simp: less_Suc_eq DistanceTo_sym)
      show "\<forall>j<cl. d < DistanceTo (cs ! j) v" by (rule Suc.prems(5))
      show "Suc n \<le> length cs" using n by simp
    qed
  qed
qed

lemma nearest_centroid_empty: "nearest_centroid [] v = Inl IndexOutOfRange"
  by (simp add: nearest_centroid_def)

lemma nearest_centroid_min:
  assumes "centroids \<noteq> []"
  shows "\<exists>i. nearest_centroid centroids v = Inr i \<and> i < length centroids
     \<and> (\<forall>j<length centroids. DistanceTo (centroids ! i) v \<le> DistanceTo (centroids ! j) v)
     \<and> (\<forall>j<i. DistanceTo (centroids ! i) v < DistanceTo (centroids ! j) v)"
proof -
  from assms obtain c0 rest where cs: "centroids = c0 # rest" by (cases centroids) auto
  obtain r dr where L: "nearest_loop v (enumerate 0 (drop 0 centroids)) (0, DistanceTo c0 v) = (r, dr)"
    by (cases "nearest_loop v (enumerate 0 (drop 0 centroids)) (0, DistanceTo c0 v)")
  have "r < length centroids \<and> dr = DistanceTo (centroids ! r) v
     \<and> (\<forall>j<length centroids. dr \<le> DistanceTo (centroids ! j) v)
     \<and> (\<forall>j<r. dr < DistanceTo (centroids ! j) v)"
    by (rule nearest_loop_min[OF L]) (simp_all add: cs)
  moreover from L cs have "nearest_centroid centroids v = Inr r"
    by (simp add: nearest_centroid_def)
  ultimately show ?thesis by blast
qed

section \<open>Buckets\<close>

lemma Collect_fold:
  "fold (\<lambda>v b. Collect_bucket b v) vs \<lparr>average = Some a, normalization = n\<rparr> =
     \<lparr>average = Some (foldl Add a vs), normalization = n + int (length vs)\<rparr>"
  by (induction vs arbitrary: a n) (simp_all add: Collect_bucket_def)

lemma Collect_first:
  "Collect_bucket \<lparr>average = None, normalization = 0\<rparr> v = \<lparr>average = Some v, normalization = 1\<rparr>"
  by (simp add: Collect_bucket_def)

lemma Collect_fold_empty:
  "fold (\<lambda>v b. Collect_bucket b v) (v # rest) \<lparr>average = None, normalization = 0\<rparr> =
     \<lparr>average = Some (foldl Add v rest), normalization = int (length (v # rest))\<rparr>"
  by (simp add: Collect_first Collect_fold)

lemma comp_foldl_Add:
  "comp0 (foldl Add a vs) = comp0 a + sum_list (map comp0 vs)"
  "comp1 (foldl Add a vs) = comp1 a + sum_list (map comp1 vs)"
  by (induction vs arbitrary: a) (simp_all add: Add_def)

lemma mean_foldl_Add:
  "MulScalar (foldl Add v rest) (1 / real_of_int (int (length (v # rest)))) = arithmetic_mean (v # rest)"
  by (simp add: MulScalar_def arithmetic_mean_def comp_foldl_Add)

lemma Average_collected:
  "Average (fold (\<lambda>v b. Collect_bucket b v) vs \<lparr>average = None, normalization = 0\<rparr>) =
     (if vs = [] then None else Some (arithmetic_mean vs))"
proof (cases vs)
  case Nil
  then show ?thesis by (simp add: Average_def)
next
  case (Cons v rest)
  have "Average (fold (\<lambda>v b. Collect_bucket b v) (v # rest) \<lparr>average = None, normalization = 0\<rparr>)
      = Some (MulScalar (foldl Add v rest) (1 / real_of_int (int (length (v # rest)))))"
    unfolding Collect_fold_empty by (simp add: Average_def)
  with Cons show ?thesis
    by (simp only: mean_foldl_Add) simp
qed

lemma collectClusters_loop_buckets:
  assumes "centroids \<noteq> []" and "length buckets = length centroids"
  shows "\<exists>bs. collectClusters_loop rs centroids buckets = Inr bs
     \<and> length bs = length centroids
     \<and> (\<forall>i<length centroids.
           bs ! i = fold (\<lambda>v b. Collect_bucket b v)
                      (filter (\<lambda>v. nearest_centroid centroids v = Inr i) rs) (buckets ! i))"
  using assms(2)
proof (induction rs arbitrary: buckets)
  case Nil
  then show ?case by simp
next
  case (Cons r rest)
  from nearest_centroid_min[OF assms(1), of r] obtain c where
    c: "nearest_centroid centroids r = Inr c" "c < length centroids" by blast
  let ?b = "buckets[c := Collect_bucket (buckets ! c) r]"
  have len: "length ?b = length centroids" using Cons.prems by simp
  from Cons.IH[OF len] obtain bs where
    bs: "collectClusters_loop rest centroids ?b = Inr bs" "length bs = length centroids"
      "\<forall>i<length centroids.
           bs ! i = fold (\<lambda>v b. Collect_bucket b v)
                      (filter (\<lambda>v. nearest_centroid centroids v = Inr i) rest) (?b ! i)"
    by blast
  from c bs(1) have "collectClusters_loop (r # rest) centroids buckets = Inr bs"
    by simp
  moreover have "bs ! i = fold (\<lambda>v b. Collect_bucket b v)
       (filter (\<lambda>v. nearest_centroid centroids v = Inr i) (r # rest)) (buckets ! i)"
    if "i < length centroids" for i
    using bs(3) that c Cons.prems by (cases "i = c") auto
  ultimately show ?case using bs(2) by blast
qed

lemma collectClusters_buckets:
  assumes "centroids \<noteq> []"
  shows "\<exists>bs. collectClusters dataset centroids = Inr bs
     \<and> length bs = length centroids
     \<and> (\<forall>i<length centroids.
           bs ! i = fold (\<lambda>v b. Collect_bucket b v)
                      (filter (\<lambda>v. nearest_centroid centroids v = Inr i) (data dataset))
                      \<lparr>average = None, normalization = 0\<rparr>)"
proof -
  let ?init = "replicate (length centroids) \<lparr>average = None, normalization = 0\<rparr>"
  have len: "length ?init = length centroids" by simp
  from collectClusters_loop_buckets[OF assms len, of "data dataset"]
  show ?thesis by (simp add: collectClusters_def AsSlice_def Let_def)
qed

lemma collectClusters_no_centroids:
  "data dataset \<noteq> [] \<Longrightarrow> collectClusters dataset [] = Inl IndexOutOfRange"
  by (cases "data dataset") (simp_all add: collectClusters_def AsSlice_def nearest_centroid_def)

section \<open>The update step\<close>

lemma createNewCentroids_fold:
  assumes "length buckets = length centroids" and "n \<le> length centroids"
  shows "\<exists>cs ds. fold (\<lambda>i (centroids, deltas).
                 case Average (buckets ! i) of
                   None \<Rightarrow> (centroids, deltas)
                 | Some newCentroid \<Rightarrow>
                     (centroids[i := newCentroid],
                      deltas[i := DistanceTo (centroids ! i) newCentroid]))
           [0..<n] (centroids, replicate (length centroids) 0) = (cs, ds)
     \<and> length cs = length centroids \<and> length ds = length centroids
     \<and> (\<forall>i<length centroids.
          cs ! i = (if i < n then (case Average (buckets ! i) of None \<Rightarrow> centroids ! i | Some c \<Rightarrow> c)
                    else centroids ! i)
        \<and> ds ! i = (if i < n then (case Average (buckets ! i) of None \<Rightarrow> 0
                                    | Some c \<Rightarrow> DistanceTo (centroids ! i) c)
                    else 0))"
  using assms(2)
proof (induction n)
  case 0
  then show ?case by simp
next
  case (Suc n)
  then obtain cs ds where
    IH: "fold (\<lambda>i (centroids, deltas).
                 case Average (buckets ! i) of
                   None \<Rightarrow> (centroids, deltas)
                 | Some newCentroid \<Rightarrow>
                     (centroids[i := newCentroid],
                      deltas[i := DistanceTo (centroids ! i) newCentroid]))
           [0..<n] (centroids, replicate (length centroids) 0) = (cs, ds)"
      "length cs = length centroids" "length ds = length centroids"
      "\<forall>i<length centroids.
          cs ! i = (if i < n then (case Average (buckets ! i) of None \<Rightarrow> centroids ! i | Some c \<Rightarrow> c)
                    else centroids ! i)
        \<and> ds ! i = (if i < n then (case Average (buckets ! i) of None \<Rightarrow> 0
                                    | Some c \<Rightarrow> DistanceTo (centroids ! i) c)
                    else 0)"
    by auto
  from Suc.prems have n: "n < length centroids" by simp
  with IH(4) have csn: "cs ! n = centroids ! n" by simp
  show ?case
  proof (cases "Average (buckets ! n)")
    case None
    with IH show ?thesis by (auto simp: less_Suc_eq)
  next
    case (Some c)
    with IH n csn show ?thesis
      by (auto simp: less_Suc_eq nth_list_update)
  qed
qed

lemma createNewCentroids_nth:
  assumes "length buckets = length centroids"
  shows "\<exists>cs ds. createNewCentroids centroids buckets = (cs, ds)
     \<and> length cs = length centroids \<and> length ds = length centroids
     \<and> (\<forall>i<length centroids.
          cs ! i = (case Average (buckets ! i) of None \<Rightarrow> centroids ! i | Some c \<Rightarrow> c)
        \<and> ds ! i = (case Average (buckets ! i) of None \<Rightarrow> 0
                     | Some c \<Rightarrow> DistanceTo (centroids ! i) c))"
  using createNewCentroids_fold[OF assms, of "length centroids"]
  by (simp add: createNewCentroids_def Let_def)

lemma nearest_centroid_single: "nearest_centroid [c] p = Inr 0"
  by (simp add: nearest_centroid_def Let_def)

lemma foldl_Add_sum:
  "foldl Add v rest = Vector2d (sum_list (map comp0 (v # rest))) (sum_list (map comp1 (v # rest)))"
  using comp_foldl_Add[of v rest] by (cases "foldl Add v rest") simp

lemma collected_bucket:
  "fold (\<lambda>v b. Collect_bucket b v) vs \<lparr>average = None, normalization = 0\<rparr> =
     \<lparr>average = (if vs = [] then None
                  else Some (Vector2d (sum_list (map comp0 vs)) (sum_list (map comp1 vs)))),
      normalization = int (length vs)\<rparr>"
proof (cases vs)
  case Nil
  then show ?thesis by simp
next
  case (Cons v rest)
  show ?thesis
    unfolding Cons Collect_fold_empty foldl_Add_sum by simp
qed

text \<open>
  C9. In the assignment step every dataset vector is accumulated into the bucket of the
  centroid that the scan finds for it: bucket \<open>i\<close> ends with the component-wise sum and the
  count of the vectors whose scan result is \<open>i\<close>, taken in dataset order, and stays empty
  when there is none. The scan result is an index of minimum distance to the vector, and
  the lowest index among those at minimum distance.
\<close>

theorem collectClusters_assigns_nearest:
  assumes "centroids \<noteq> []"
  shows "\<exists>buckets. collectClusters dataset centroids = Inr buckets
     \<and> length buckets = length centroids
     \<and> (\<forall>i<length centroids.
          (let assigned = filter (\<lambda>v. nearest_centroid centroids v = Inr i) (data dataset)
           in buckets ! i =
                \<lparr>average = (if assigned = [] then None
                             else Some (Vector2d (sum_list (map comp0 assigned))
                                                 (sum_list (map comp1 assigned)))),
                 normalization = int (length assigned)\<rparr>
            \<and> buckets ! i = fold (\<lambda>v b. Collect_bucket b v) assigned
                               \<lparr>average = None, normalization = 0\<rparr>))
     \<and> (\<forall>v. \<exists>i. nearest_centroid centroids v = Inr i \<and> i < length centroids
           \<and> (\<forall>j<length centroids.
                 squared_distance (centroids ! i) v \<le> squared_distance (centroids ! j) v)
           \<and> (\<forall>j<i. squared_distance (centroids ! i) v < squared_distance (centroids ! j) v)
           \<and> (\<forall>j<length centroids. DistanceTo (centroids ! i) v \<le> DistanceTo (centroids ! j) v)
           \<and> (\<forall>j<i. DistanceTo (centroids ! i) v < DistanceTo (centroids ! j) v))"
proof -
  from collectClusters_buckets[OF assms, of dataset] obtain bs where
    bs: "collectClusters dataset centroids = Inr bs" "length bs = length centroids"
      "\<forall>i<length centroids.
           bs ! i = fold (\<lambda>v b. Collect_bucket b v)
                      (filter (\<lambda>v. nearest_centroid centroids v = Inr i) (data dataset))
                      \<lparr>average = None, normalization = 0\<rparr>"
    by blast
  from bs(3) have content: "\<forall>i<length centroids.
          (let assigned = filter (\<lambda>v. nearest_centroid centroids v = Inr i) (data dataset)
           in bs ! i =
                \<lparr>average = (if assigned = [] then None
                             else Some (Vector2d (sum_list (map comp0 assigned))
                                                 (sum_list (map comp1 assigned)))),
                 normalization = int (length assigned)\<rparr>
            \<and> bs ! i = fold (\<lambda>v b. Collect_bucket b v) assigned
                               \<lparr>average = None, normalization = 0\<rparr>)"
    by (simp add: Let_def collected_bucket)
  have near: "\<exists>i. nearest_centroid centroids v = Inr i \<and> i < length centroids
           \<and> (\<forall>j<length centroids.
                 squared_distance (centroids ! i) v \<le> squared_distance (centroids ! j) v)
           \<and> (\<forall>j<i. squared_distance (centroids ! i) v < squared_distance (centroids ! j) v)
           \<and> (\<forall>j<length centroids. DistanceTo (centroids ! i) v \<le> DistanceTo (centroids ! j) v)
           \<and> (\<forall>j<i. DistanceTo (centroids ! i) v < DistanceTo (centroids ! j) v)" for v
  proof -
    from nearest_centroid_min[OF assms, of v] obtain i where
      i: "nearest_centroid centroids v = Inr i" "i < length centroids"
        "\<forall>j<length centroids. DistanceTo (centroids ! i) v \<le> DistanceTo (centroids ! j) v"
        "\<forall>j<i. DistanceTo (centroids ! i) v < DistanceTo (centroids ! j) v"
      by blast
    from i(3,4) have
      "\<forall>j<length centroids.
          squared_distance (centroids ! i) v \<le> squared_distance (centroids ! j) v"
      "\<forall>j<i. squared_distance (centroids ! i) v < squared_distance (centroids ! j) v"
      by (simp_all add: DistanceTo_squared_distance)
    with i show ?thesis by blast
  qed
  from bs(1,2) content near show ?thesis by blast
qed

theorem collectClusters_assigns_nearest_witness:
  "[Vector2d 0 0, Vector2d 4 0] \<noteq> []
   \<and> (\<exists>buckets. collectClusters
          \<lparr>data = [Vector2d 1 0, Vector2d 5 0, Vector2d 2 0, Vector2d 3 0], creator = vector2Creator\<rparr>
          [Vector2d 0 0, Vector2d 4 0] = Inr buckets
        \<and> length buckets = 2
        \<and> buckets ! 0 = \<lparr>average = Some (Vector2d 3 0), normalization = 2\<rparr>
        \<and> buckets ! 1 = \<lparr>average = Some (Vector2d 8 0), normalization = 2\<rparr>)"
proof -
  let ?cs = "[Vector2d 0 0, Vector2d 4 0]"
  let ?ds = "\<lparr>data = [Vector2d 1 0, Vector2d 5 0, Vector2d 2 0, Vector2d 3 0], creator = vector2Creator\<rparr>"
  have h: "?cs \<noteq> []" by simp
  have n: "nearest_centroid ?cs (Vector2d 1 0) = Inr 0" "nearest_centroid ?cs (Vector2d 5 0) = Inr 1"
    "nearest_centroid ?cs (Vector2d 2 0) = Inr 0" "nearest_centroid ?cs (Vector2d 3 0) = Inr 1"
    by (simp_all add: nearest_centroid_def DistanceTo_def Length_def TransposedMul_def Subtract_def)
  from collectClusters_assigns_nearest[OF h, of ?ds]
  obtain buckets where
    r: "collectClusters ?ds ?cs = Inr buckets" "length buckets = length ?cs"
       "\<forall>i<length ?cs.
          (let assigned = filter (\<lambda>v. nearest_centroid ?cs v = Inr i) (data ?ds)
           in buckets ! i =
                \<lparr>average = (if assigned = [] then None
                             else Some (Vector2d (sum_list (map comp0 assigned))
                                                 (sum_list (map comp1 assigned)))),
                 normalization = int (length assigned)\<rparr>
            \<and> buckets ! i = fold (\<lambda>v b. Collect_bucket b v) assigned
                               \<lparr>average = None, normalization = 0\<rparr>)"
    by blast
  have i0: "0 < length ?cs" and i1: "1 < length ?cs" by simp_all
  from r(3)[rule_format, OF i0] have b0: "buckets ! 0 = \<lparr>average = Some (Vector2d 3 0), normalization = 2\<rparr>"
    by (simp add: n Let_def)
  from r(3)[rule_format, OF i1] have b1: "buckets ! 1 = \<lparr>average = Some (Vector2d 8 0), normalization = 2\<rparr>"
    by (simp add: n Let_def)
  from r(1,2) b0 b1 show ?thesis by simp
qed

text \<open>
  C4. One refinement pass: for a bucket that received the vectors \<open>assigned\<close>, in this
  order, the new centroid is their sum scaled by \<open>1 / count\<close>, which is their arithmetic
  mean, and the delta is the distance from the old centroid to the new one; for a bucket
  that received none the centroid stays and the delta is zero.
\<close>

theorem refinement_pass_update:
  assumes "centroids \<noteq> []"
  shows "\<exists>buckets centroids' deltas.
       collectClusters dataset centroids = Inr buckets
     \<and> createNewCentroids centroids buckets = (centroids', deltas)
     \<and> length centroids' = length centroids \<and> length deltas = length centroids
     \<and> (\<forall>i<length centroids.
          (let assigned = filter (\<lambda>v. nearest_centroid centroids v = Inr i) (data dataset)
           in if assigned = []
              then centroids' ! i = centroids ! i \<and> deltas ! i = 0
              else centroids' ! i =
                     MulScalar (foldl Add (hd assigned) (tl assigned)) (1 / real (length assigned))
                 \<and> centroids' ! i = arithmetic_mean assigned
                 \<and> deltas ! i = DistanceTo (centroids ! i) (centroids' ! i)))"
proof -
  from collectClusters_buckets[OF assms, of dataset] obtain bs where
    bs: "collectClusters dataset centroids = Inr bs" "length bs = length centroids"
      "\<forall>i<length centroids.
           bs ! i = fold (\<lambda>v b. Collect_bucket b v)
                      (filter (\<lambda>v. nearest_centroid centroids v = Inr i) (data dataset))
                      \<lparr>average = None, normalization = 0\<rparr>"
    by blast
  from createNewCentroids_nth[OF bs(2)] obtain cs ds where
    cs: "createNewCentroids centroids bs = (cs, ds)"
      "length cs = length centroids" "length ds = length centroids"
      "\<forall>i<length centroids.
          cs ! i = (case Average (bs ! i) of None \<Rightarrow> centroids ! i | Some c \<Rightarrow> c)
        \<and> ds ! i = (case Average (bs ! i) of None \<Rightarrow> 0
                     | Some c \<Rightarrow> DistanceTo (centroids ! i) c)"
    by blast
  have "(let assigned = filter (\<lambda>v. nearest_centroid centroids v = Inr i) (data dataset)
           in if assigned = []
              then cs ! i = centroids ! i \<and> ds ! i = 0
              else cs ! i =
                     MulScalar (foldl Add (hd assigned) (tl assigned)) (1 / real (length assigned))
                 \<and> cs ! i = arithmetic_mean assigned
                 \<and> ds ! i = DistanceTo (centroids ! i) (cs ! i))"
    if i: "i < length centroids" for i
  proof -
    let ?as = "filter (\<lambda>v. nearest_centroid centroids v = Inr i) (data dataset)"
    from bs(3) i have av: "Average (bs ! i) = (if ?as = [] then None else Some (arithmetic_mean ?as))"
      by (simp add: Average_collected)
    have mean: "arithmetic_mean ?as = MulScalar (foldl Add (hd ?as) (tl ?as)) (1 / real (length ?as))"
      if "?as \<noteq> []"
    proof -
      from that obtain v rest where vr: "?as = v # rest" by (cases ?as) auto
      show ?thesis unfolding vr using mean_foldl_Add[of v rest] by simp
    qed
    from cs(4) i av mean show ?thesis by (simp add: Let_def)
  qed
  with bs(1) cs(1,2,3) show ?thesis by blast
qed

theorem refinement_pass_update_witness:
  "[Vector2d 0 0, Vector2d 4 0] \<noteq> []
   \<and> (\<exists>buckets centroids' deltas.
         collectClusters \<lparr>data = [Vector2d 1 0, Vector2d 2 0], creator = vector2Creator\<rparr>
           [Vector2d 0 0, Vector2d 4 0] = Inr buckets
       \<and> createNewCentroids [Vector2d 0 0, Vector2d 4 0] buckets = (centroids', deltas)
       \<and> centroids' ! 0 = Vector2d (3/2) 0 \<and> deltas ! 0 = 9/4
       \<and> centroids' ! 1 = Vector2d 4 0 \<and> deltas ! 1 = 0)"
proof -
  let ?cs = "[Vector2d 0 0, Vector2d 4 0]"
  have h: "?cs \<noteq> []" by simp
  have n1: "nearest_centroid ?cs (Vector2d 1 0) = Inr 0"
    by (simp add: nearest_centroid_def DistanceTo_def Length_def TransposedMul_def Subtract_def)
  have n2: "nearest_centroid ?cs (Vector2d 2 0) = Inr 0"
    by (simp add: nearest_centroid_def DistanceTo_def Length_def TransposedMul_def Subtract_def)
  from refinement_pass_update[OF h,
      of "\<lparr>data = [Vector2d 1 0, Vector2d 2 0], creator = vector2Creator\<rparr>"]
  obtain buckets centroids' deltas where
    r: "collectClusters \<lparr>data = [Vector2d 1 0, Vector2d 2 0], creator = vector2Creator\<rparr> ?cs = Inr buckets"
       "createNewCentroids ?cs buckets = (centroids', deltas)"
       "\<forall>i<length ?cs.
          (let assigned = filter (\<lambda>v. nearest_centroid ?cs v = Inr i)
                            (data \<lparr>data = [Vector2d 1 0, Vector2d 2 0], creator = vector2Creator\<rparr>)
           in if assigned = []
              then centroids' ! i = ?cs ! i \<and> deltas ! i = 0
              else centroids' ! i =
                     MulScalar (foldl Add (hd assigned) (tl assigned)) (1 / real (length assigned))
                 \<and> centroids' ! i = arithmetic_mean assigned
                 \<and> deltas ! i = DistanceTo (?cs ! i) (centroids' ! i))"
    by blast
  have i0: "0 < length ?cs" and i1: "1 < length ?cs" by simp_all
  from r(3)[rule_format, OF i0] have "centroids' ! 0 = Vector2d (3/2) 0 \<and> deltas ! 0 = 9/4"
    by (simp add: n1 n2 arithmetic_mean_def DistanceTo_def Length_def TransposedMul_def
        Subtract_def MulScalar_def Add_def Let_def)
  moreover from r(3)[rule_format, OF i1] have "centroids' ! 1 = Vector2d 4 0 \<and> deltas ! 1 = 0"
    by (simp add: n1 n2 Let_def)
  ultimately show ?thesis using r(1,2) by blast
qed

section \<open>The K-Means entry points\<close>

lemma IsEmpty_iff: "IsEmpty dataset \<longleftrightarrow> data dataset = []"
  by (simp add: IsEmpty_def Count_def)

lemma Clusters_empty: "Clusters [] = []"
  by (simp add: Clusters_def)

text \<open>
  C7. On an empty dataset \<open>KMeans\<close>, \<open>KMeansWithSampler\<close> and \<open>KMeansWithCentroids\<close>
  return the clusterer with no centroid, without an error and without calling the sampler,
  and \<open>Clusters\<close> of that clusterer is the empty sequence.
\<close>

theorem KMeans_empty_dataset:
  assumes "data dataset = []"
  shows "KMeans dataset k g = Some (Inr [])
     \<and> KMeansWithSampler dataset k sampler s = Some (Inr [])
     \<and> KMeansWithCentroids dataset centroids = Some (Inr [])
     \<and> Clusters [] = []"
  using assms
  by (simp add: KMeans_def KMeansWithSampler_def KMeansWithCentroids_def IsEmpty_iff Clusters_empty)

theorem KMeans_empty_dataset_witness:
  "data \<lparr>data = [], creator = vector2Creator\<rparr> = []
   \<and> KMeans \<lparr>data = [], creator = vector2Creator\<rparr> 3 (\<lambda>n. 0) = Some (Inr [])
   \<and> KMeansWithCentroids \<lparr>data = [], creator = vector2Creator\<rparr> [Vector2d 1 1] = Some (Inr [])"
proof -
  have h: "data \<lparr>data = [], creator = vector2Creator\<rparr> = []" by simp
  from KMeans_empty_dataset[OF h, where k = 3 and g = "\<lambda>n. 0"
      and sampler = "\<lambda>k m s. Some (Vector2d 0 0, s)" and s = "()"
      and centroids = "[Vector2d 1 1]"] h
  show ?thesis by simp
qed

lemma KMeansWithCentroids_loop_panic:
  "data dataset \<noteq> [] \<Longrightarrow> KMeansWithCentroids_loop dataset [] = Some (Inl IndexOutOfRange)"
  by (subst KMeansWithCentroids_loop.simps) (simp add: collectClusters_no_centroids)

lemma makeCentroids_zero: "makeCentroids 0 dataset sampler s = Some (Inr [])"
  by (simp add: makeCentroids_def)

text \<open>
  C10. On a dataset that is not empty, \<open>KMeansWithCentroids\<close> with no centroid, and so
  \<open>KMeansWithSampler\<close> and \<open>KMeans\<close> with \<open>k = 0\<close>, end in the index-out-of-range panic
  of the assignment step: they return neither a clusterer nor an error value.
\<close>

theorem KMeans_no_centroids_panics:
  assumes "data dataset \<noteq> []"
  shows "KMeansWithCentroids dataset [] = Some (Inl IndexOutOfRange)
     \<and> KMeansWithSampler dataset 0 sampler s = Some (Inl IndexOutOfRange)
     \<and> KMeans dataset 0 g = Some (Inl IndexOutOfRange)"
  using assms
  by (simp add: KMeans_def KMeansWithSampler_def KMeansWithCentroids_def IsEmpty_iff
      makeCentroids_zero KMeansWithCentroids_loop_panic)

theorem KMeans_no_centroids_panics_witness:
  "data \<lparr>data = [Vector2d 1 2], creator = vector2Creator\<rparr> \<noteq> []
   \<and> KMeansWithCentroids \<lparr>data = [Vector2d 1 2], creator = vector2Creator\<rparr> []
       = Some (Inl IndexOutOfRange)
   \<and> KMeans \<lparr>data = [Vector2d 1 2], creator = vector2Creator\<rparr> 0 (\<lambda>n. 0)
       = Some (Inl IndexOutOfRange)"
proof -
  have h: "data \<lparr>data = [Vector2d 1 2], creator = vector2Creator\<rparr> \<noteq> []" by simp
  from KMeans_no_centroids_panics[OF h, where g = "\<lambda>n. 0"
      and sampler = "\<lambda>k m s. Some (Vector2d 0 0, s)" and s = "()"] h
  show ?thesis by simp
qed

section \<open>A dataset of one vector\<close>

lemma collectClusters_single:
  "collectClusters \<lparr>data = [p], creator = cr\<rparr> [c] = Inr [\<lparr>average = Some p, normalization = 1\<rparr>]"
  by (simp add: collectClusters_def AsSlice_def nearest_centroid_single Collect_first)

lemma createNewCentroids_single:
  "createNewCentroids [c] [\<lparr>average = Some p, normalization = 1\<rparr>] = ([p], [DistanceTo c p])"
  by (simp add: createNewCentroids_def Average_def MulScalar_one)

lemma maxDelta_of_single: "maxDelta_of [d] = (if d > 0 then d else 0)"
  by (simp add: maxDelta_of_def)

lemma KMeansWithCentroids_loop_fixed:
  "KMeansWithCentroids_loop \<lparr>data = [p], creator = cr\<rparr> [p] = Some (Inr [p])"
  by (subst KMeansWithCentroids_loop.simps)
    (simp add: collectClusters_single createNewCentroids_single maxDelta_of_single DistanceTo_self)

lemma KMeansWithCentroids_loop_single:
  "KMeansWithCentroids_loop \<lparr>data = [p], creator = cr\<rparr> [c] = Some (Inr [p])"
  by (subst KMeansWithCentroids_loop.simps)
    (simp add: collectClusters_single createNewCentroids_single maxDelta_of_single
      KMeansWithCentroids_loop_fixed)

text \<open>The loop ends after the first pass when the initial centroid is within \<open>1/10\<close>
  of \<open>p\<close> (in \<open>DistanceTo\<close>), and after a second pass, whose delta is 0, otherwise.\<close>

lemma KMeansWithCentroids_loop_single_passes:
  "KMeansWithCentroids_loop \<lparr>data = [p], creator = cr\<rparr> [c] =
     (if DistanceTo c p > 1 / 10
      then KMeansWithCentroids_loop \<lparr>data = [p], creator = cr\<rparr> [p]
      else Some (Inr [p]))"
  by (subst KMeansWithCentroids_loop.simps)
    (simp add: collectClusters_single createNewCentroids_single maxDelta_of_single)

lemma makeCentroids_one:
  "makeCentroids 1 dataset sampler s =
     (case sampler 0 (Length (Max_vec dataset)) s of
        None \<Rightarrow> None
      | Some (c, s') \<Rightarrow> Some (Inr [c]))"
  by (simp add: makeCentroids_def split: option.splits)

text \<open>A result within a bound on the passes is the result of the loop.\<close>

lemma KMeansWithCentroids_passes_loop:
  "KMeansWithCentroids_passes n dataset centroids = Some r \<Longrightarrow>
   KMeansWithCentroids_loop dataset centroids = Some r"
proof (induction n arbitrary: centroids)
  case 0
  then show ?case by simp
next
  case (Suc n)
  show ?case
  proof (cases "collectClusters dataset centroids")
    case (Inl err)
    with Suc.prems show ?thesis
      by (subst KMeansWithCentroids_loop.simps) simp
  next
    case (Inr buckets)
    obtain cs ds where cd: "createNewCentroids centroids buckets = (cs, ds)"
      by (cases "createNewCentroids centroids buckets")
    show ?thesis
    proof (cases "maxDelta_of ds > 1 / 10")
      case True
      with Suc.prems Inr cd have "KMeansWithCentroids_passes n dataset cs = Some r" by simp
      from Suc.IH[OF this] Inr cd True show ?thesis
        by (subst KMeansWithCentroids_loop.simps) simp
    next
      case False
      with Suc.prems Inr cd show ?thesis
        by (subst KMeansWithCentroids_loop.simps) simp
    qed
  qed
qed

text \<open>
  C8, as stated, fails: with the single vector \<open>(1, 0)\<close> and the initial centroid
  \<open>(0, 0)\<close> the delta of the first pass is 1, above the threshold, so the loop has not
  ended after the first pass; it ends after the second.
\<close>

theorem KMeans_single_point_counterexample:
  "collectClusters \<lparr>data = [Vector2d 1 0], creator = vector2Creator\<rparr> [Vector2d 0 0]
     = Inr [\<lparr>average = Some (Vector2d 1 0), normalization = 1\<rparr>]
   \<and> createNewCentroids [Vector2d 0 0] [\<lparr>average = Some (Vector2d 1 0), normalization = 1\<rparr>]
     = ([Vector2d 1 0], [1])
   \<and> maxDelta_of [1] > 1 / 10
   \<and> KMeansWithCentroids_passes 1 \<lparr>data = [Vector2d 1 0], creator = vector2Creator\<rparr> [Vector2d 0 0]
     = None
   \<and> KMeansWithCentroids_passes 2 \<lparr>data = [Vector2d 1 0], creator = vector2Creator\<rparr> [Vector2d 0 0]
     = Some (Inr [Vector2d 1 0])"
proof -
  have d: "DistanceTo (Vector2d 0 0) (Vector2d 1 0) = 1"
    by (simp add: DistanceTo_def Length_def TransposedMul_def Subtract_def)
  have two: "(2::nat) = Suc (Suc 0)" by simp
  show ?thesis
    unfolding two One_nat_def
    by (simp add: collectClusters_single createNewCentroids_single maxDelta_of_single d
        DistanceTo_self)
qed

text \<open>
  C8, amended. On a dataset of the single vector \<open>p\<close> and with one initial centroid \<open>c\<close>,
  the first assignment puts \<open>p\<close> into the only bucket and the first update sets the centroid
  to \<open>p\<close>, with the delta \<open>squared_distance c p\<close>. The loop ends after this first pass
  when that delta is at most \<open>1/10\<close> and after a second pass otherwise; in both cases it
  returns the clusterer whose only centroid is \<open>p\<close>. With \<open>k = 1\<close> and a sampler the
  initial centroid is the sampler's vector, so the result is the same whenever the sampler
  returns.
\<close>

theorem KMeans_single_point_passes:
  "collectClusters \<lparr>data = [p], creator = cr\<rparr> [c] = Inr [\<lparr>average = Some p, normalization = 1\<rparr>]
   \<and> createNewCentroids [c] [\<lparr>average = Some p, normalization = 1\<rparr>] = ([p], [DistanceTo c p])
   \<and> maxDelta_of [DistanceTo c p] = squared_distance c p
   \<and> KMeansWithCentroids_passes 1 \<lparr>data = [p], creator = cr\<rparr> [c] =
       (if squared_distance c p > 1 / 10 then None else Some (Inr [p]))
   \<and> KMeansWithCentroids_passes 2 \<lparr>data = [p], creator = cr\<rparr> [c] = Some (Inr [p])
   \<and> KMeansWithCentroids \<lparr>data = [p], creator = cr\<rparr> [c] = Some (Inr [p])
   \<and> KMeansWithSampler \<lparr>data = [p], creator = cr\<rparr> 1 sampler s =
       (case sampler 0 (Length (Max_vec \<lparr>data = [p], creator = cr\<rparr>)) s of
          None \<Rightarrow> None
        | Some (c', s') \<Rightarrow> Some (Inr [p]))"
proof -
  have nn: "0 \<le> DistanceTo c p" by (simp add: DistanceTo_def Length_nonneg)
  have two: "(2::nat) = Suc (Suc 0)" by simp
  have md: "maxDelta_of [DistanceTo c p] = squared_distance c p"
    using nn by (simp add: maxDelta_of_single DistanceTo_squared_distance[symmetric])
  have p1: "KMeansWithCentroids_passes (Suc 0) \<lparr>data = [p], creator = cr\<rparr> [c] =
       (if squared_distance c p > 1 / 10 then None else Some (Inr [p]))"
    by (simp add: collectClusters_single createNewCentroids_single md)
  have p1': "KMeansWithCentroids_passes (Suc 0) \<lparr>data = [p], creator = cr\<rparr> [p] = Some (Inr [p])"
    by (simp add: collectClusters_single createNewCentroids_single maxDelta_of_single DistanceTo_self)
  have p2: "KMeansWithCentroids_passes (Suc (Suc 0)) \<lparr>data = [p], creator = cr\<rparr> [c] = Some (Inr [p])"
    using p1' by (simp add: collectClusters_single createNewCentroids_single md)
  show ?thesis
    unfolding two One_nat_def
    using p1 p2 md
    by (simp add: collectClusters_single createNewCentroids_single KMeansWithCentroids_def
      KMeansWithSampler_def IsEmpty_iff KMeansWithCentroids_loop_single makeCentroids_one
      split: option.splits)
qed

section \<open>Partitioning a dataset\<close>

text \<open>
  C6, as stated, fails at the empty dataset: the loop of \<open>ClusteredPartition\<close> never calls
  \<open>FindCluster\<close>, and the result is the empty partition with no error.
\<close>

theorem ClusteredPartition_empty_counterexample:
  "ClusteredPartition [] (\<lambda>n. []) \<lparr>data = [], creator = vector2Creator\<rparr> = Inr Map.empty
   \<and> ClusteredPartition [] (\<lambda>n. []) \<lparr>data = [], creator = vector2Creator\<rparr> \<noteq> Inl EmptyClusterer"
  by (simp add: ClusteredPartition_def AsSlice_def)

text \<open>
  C6, amended. On a clusterer with no centroid \<open>FindCluster\<close> fails with \<open>EmptyClusterer\<close>
  for every vector and every visit order, and \<open>ClusteredPartition\<close> returns that error for
  every dataset that is not empty; for the empty dataset it returns the empty partition.
\<close>

theorem EmptyClusterer_propagates:
  "FindCluster [] order v = Inl EmptyClusterer
   \<and> (data dataset \<noteq> [] \<longrightarrow> ClusteredPartition [] orders dataset = Inl EmptyClusterer)
   \<and> (data dataset = [] \<longrightarrow> ClusteredPartition [] orders dataset = Inr Map.empty)"
  by (cases "data dataset") (simp_all add: ClusteredPartition_def AsSlice_def FindCluster_empty)

theorem EmptyClusterer_propagates_witness:
  "data \<lparr>data = [Vector2d 1 2], creator = vector2Creator\<rparr> \<noteq> []
   \<and> FindCluster [] [] (Vector2d 1 2) = Inl EmptyClusterer
   \<and> ClusteredPartition [] (\<lambda>n. []) \<lparr>data = [Vector2d 1 2], creator = vector2Creator\<rparr>
       = Inl EmptyClusterer
   \<and> data \<lparr>data = [], creator = vector2Creator\<rparr> = []
   \<and> ClusteredPartition [] (\<lambda>n. []) \<lparr>data = [], creator = vector2Creator\<rparr> = Inr Map.empty"
proof -
  have h1: "data \<lparr>data = [Vector2d 1 2], creator = vector2Creator\<rparr> \<noteq> []" by simp
  have h2: "data \<lparr>data = [], creator = vector2Creator\<rparr> = []" by simp
  from EmptyClusterer_propagates[where order = "[]" and v = "Vector2d 1 2" and orders = "\<lambda>n. []"
      and dataset = "\<lparr>data = [Vector2d 1 2], creator = vector2Creator\<rparr>"]
    EmptyClusterer_propagates[where order = "[]" and v = "Vector2d 1 2" and orders = "\<lambda>n. []"
      and dataset = "\<lparr>data = [], creator = vector2Creator\<rparr>"]
    h1 h2
  show ?thesis by blast
qed

text \<open>The loop of \<open>ClusteredPartition\<close>, started from any partition \<open>p\<close>: \<open>assign\<close>
  lists the cluster that \<open>FindCluster\<close> returned for each vector, in order.\<close>

lemma FindCluster_total:
  assumes "clusterer \<noteq> []"
  shows "\<exists>c. FindCluster clusterer order v = Inr c"
  using assms by (cases clusterer) (simp_all add: FindCluster_def card_dom_Centroids Centroids_apply)

lemma filter_zip_notin:
  "c \<notin> set assign \<Longrightarrow> filter (\<lambda>(v, a). a = c) (zip vs assign) = []"
  by (auto simp: filter_empty_conv dest: set_zip_rightD)

lemma ClusteredPartition_loop_lists:
  assumes "clusterer \<noteq> []"
  shows "\<exists>assign. length assign = length vs
     \<and> (\<forall>i<length vs. FindCluster clusterer (orders i) (vs ! i) = Inr (assign ! i))
     \<and> ClusteredPartition_loop clusterer orders vs p =
         Inr (\<lambda>c. if c \<in> set assign
                  then Some ((case p c of None \<Rightarrow> [] | Some xs \<Rightarrow> xs)
                             @ map fst (filter (\<lambda>(v, a). a = c) (zip vs assign)))
                  else p c)"
proof (induction vs arbitrary: orders p)
  case Nil
  show ?case by simp
next
  case (Cons v vs)
  from FindCluster_total[OF assms] obtain c0 where c0: "FindCluster clusterer (orders 0) v = Inr c0"
    by blast
  let ?p = "p(c0 \<mapsto> (case p c0 of None \<Rightarrow> [] | Some xs \<Rightarrow> xs) @ [v])"
  let ?o = "\<lambda>n. orders (Suc n)"
  from Cons.IH[of ?o ?p] obtain assign where
    a: "length assign = length vs"
      "\<forall>i<length vs. FindCluster clusterer (?o i) (vs ! i) = Inr (assign ! i)"
      "ClusteredPartition_loop clusterer ?o vs ?p =
         Inr (\<lambda>c. if c \<in> set assign
                  then Some ((case ?p c of None \<Rightarrow> [] | Some xs \<Rightarrow> xs)
                             @ map fst (filter (\<lambda>(v, a). a = c) (zip vs assign)))
                  else ?p c)"
    by blast
  let ?assign = "c0 # assign"
  have 1: "length ?assign = length (v # vs)" using a(1) by simp
  have 2: "\<forall>i<length (v # vs). FindCluster clusterer (orders i) ((v # vs) ! i) = Inr (?assign ! i)"
    using a(2) c0 by (auto simp: nth_Cons split: nat.splits)
  have 3: "ClusteredPartition_loop clusterer orders (v # vs) p =
         Inr (\<lambda>c. if c \<in> set ?assign
                  then Some ((case p c of None \<Rightarrow> [] | Some xs \<Rightarrow> xs)
                             @ map fst (filter (\<lambda>(v, a). a = c) (zip (v # vs) ?assign)))
                  else p c)"
    using c0 a(3) by (auto intro!: ext simp: filter_zip_notin)
  from 1 2 3 show ?case by blast
qed

lemma sum_mset_filter_key:
  assumes "finite A" and "f ` set xs \<subseteq> A"
  shows "(\<Sum>c\<in>A. mset (map g (filter (\<lambda>x. f x = c) xs))) = mset (map g xs)"
  using assms(2)
proof (induction xs)
  case Nil
  then show ?case by simp
next
  case (Cons x xs)
  then have fx: "f x \<in> A" and sub: "f ` set xs \<subseteq> A" by auto
  have "(\<Sum>c\<in>A. mset (map g (filter (\<lambda>y. f y = c) (x # xs))))
      = (\<Sum>c\<in>A. (if f x = c then {#g x#} else {#}) + mset (map g (filter (\<lambda>y. f y = c) xs)))"
    by (rule sum.cong) auto
  also have "\<dots> = (\<Sum>c\<in>A. (if f x = c then {#g x#} else {#}))
                  + (\<Sum>c\<in>A. mset (map g (filter (\<lambda>y. f y = c) xs)))"
    by (rule sum.distrib)
  also have "(\<Sum>c\<in>A. (if f x = c then {#g x#} else {#})) = {#g x#}"
    using assms(1) fx by (simp add: sum.delta')
  finally show ?case using Cons.IH[OF sub] by simp
qed

lemma sum_length_filter_key:
  assumes "finite A" and "f ` set xs \<subseteq> A"
  shows "(\<Sum>c\<in>A. length (filter (\<lambda>x. f x = c) xs)) = length xs"
  using assms(2)
proof (induction xs)
  case Nil
  then show ?case by simp
next
  case (Cons x xs)
  then have fx: "f x \<in> A" and sub: "f ` set xs \<subseteq> A" by auto
  have "(\<Sum>c\<in>A. length (filter (\<lambda>y. f y = c) (x # xs)))
      = (\<Sum>c\<in>A. (if f x = c then 1 else 0) + length (filter (\<lambda>y. f y = c) xs))"
    by (rule sum.cong) auto
  also have "\<dots> = (\<Sum>c\<in>A. (if f x = c then 1 else 0))
                  + (\<Sum>c\<in>A. length (filter (\<lambda>y. f y = c) xs))"
    by (rule sum.distrib)
  also have "(\<Sum>c\<in>A. (if f x = c then 1 else 0)) = (1::nat)"
    using assms(1) fx by (simp add: sum.delta')
  finally show ?case using Cons.IH[OF sub] by simp
qed

lemma subseq_filter_zip: "subseq (map fst (filter P (zip xs ys))) xs"
proof (induction xs arbitrary: ys)
  case Nil
  show ?case by simp
next
  case (Cons x xs)
  show ?case
  proof (cases ys)
    case Nil
    then show ?thesis by simp
  next
    case (Cons y ys')
    with Cons.IH[of ys'] show ?thesis by auto
  qed
qed

text \<open>
  C5. On a clusterer with at least one centroid \<open>ClusteredPartition\<close> returns a partition
  of the dataset: the vector at each position goes to the list of the one cluster that
  \<open>FindCluster\<close> returned for it, each list holds its vectors in dataset order, the keys
  are the clusters that received a vector, and the lists together hold the dataset's
  vectors as a multiset, so their lengths add up to the size of the dataset.
\<close>

theorem ClusteredPartition_is_partition:
  assumes "clusterer \<noteq> []"
  shows "\<exists>p assign. ClusteredPartition clusterer orders dataset = Inr p
     \<and> length assign = length (data dataset)
     \<and> (\<forall>i<length (data dataset).
           FindCluster clusterer (orders i) (data dataset ! i) = Inr (assign ! i))
     \<and> dom p = set assign
     \<and> (\<forall>c. p c = (if c \<in> set assign
                     then Some (map fst (filter (\<lambda>(v, a). a = c) (zip (data dataset) assign)))
                     else None))
     \<and> (\<forall>c\<in>dom p. the (p c) \<noteq> [] \<and> subseq (the (p c)) (data dataset))
     \<and> (\<Sum>c\<in>dom p. mset (the (p c))) = mset (data dataset)
     \<and> (\<Sum>c\<in>dom p. length (the (p c))) = length (data dataset)"
proof -
  let ?vs = "data dataset"
  from ClusteredPartition_loop_lists[OF assms, of ?vs orders Map.empty]
  obtain assign where
    a: "length assign = length ?vs"
      "\<forall>i<length ?vs. FindCluster clusterer (orders i) (?vs ! i) = Inr (assign ! i)"
      "ClusteredPartition_loop clusterer orders ?vs Map.empty =
         Inr (\<lambda>c. if c \<in> set assign
                  then Some ((case Map.empty c of None \<Rightarrow> [] | Some xs \<Rightarrow> xs)
                             @ map fst (filter (\<lambda>(v, a). a = c) (zip ?vs assign)))
                  else Map.empty c)"
    by blast
  let ?l = "\<lambda>c. map fst (filter (\<lambda>(v, a). a = c) (zip ?vs assign))"
  let ?p = "\<lambda>c. if c \<in> set assign then Some (?l c) else None"
  have "(\<lambda>c. if c \<in> set assign
                  then Some ((case Map.empty c of None \<Rightarrow> [] | Some xs \<Rightarrow> xs) @ ?l c)
                  else Map.empty c) = ?p"
    by (rule ext) simp
  with a(3) have res: "ClusteredPartition clusterer orders dataset = Inr ?p"
    by (simp only: ClusteredPartition_def AsSlice_def)
  have dom: "dom ?p = set assign"
    by (auto simp: dom_def)
  have the_p: "the (?p c) = ?l c" if "c \<in> set assign" for c
    using that by simp
  have ne: "?l c \<noteq> []" if "c \<in> set assign" for c
  proof -
    from that obtain i where i: "i < length assign" "assign ! i = c"
      by (auto simp: in_set_conv_nth)
    with a(1) have "(?vs ! i, c) \<in> set (zip ?vs assign)"
      by (auto simp: set_zip)
    then have "(?vs ! i, c) \<in> set (filter (\<lambda>(v, a). a = c) (zip ?vs assign))" by simp
    then show ?thesis by (auto simp: filter_empty_conv)
  qed
  have sub: "snd ` set (zip ?vs assign) \<subseteq> set assign"
    by (auto dest: set_zip_rightD)
  have split_eq: "(\<lambda>(v, a). a = c) = (\<lambda>x. snd x = c)" for c :: Cluster
    by (auto simp: fun_eq_iff)
  have "(\<Sum>c\<in>set assign. mset (?l c)) = mset (map fst (zip ?vs assign))"
    unfolding split_eq by (rule sum_mset_filter_key[OF _ sub]) simp
  also have "\<dots> = mset ?vs" using a(1) by simp
  finally have ms: "(\<Sum>c\<in>set assign. mset (?l c)) = mset ?vs" .
  have "(\<Sum>c\<in>set assign. length (?l c)) = length (zip ?vs assign)"
    unfolding split_eq length_map by (rule sum_length_filter_key[OF _ sub]) simp
  also have "\<dots> = length ?vs" using a(1) by simp
  finally have ln: "(\<Sum>c\<in>set assign. length (?l c)) = length ?vs" .
  have ms': "(\<Sum>c\<in>dom ?p. mset (the (?p c))) = mset ?vs"
    unfolding dom using ms by (simp cong: sum.cong)
  have ln': "(\<Sum>c\<in>dom ?p. length (the (?p c))) = length ?vs"
    unfolding dom using ln by (simp cong: sum.cong)
  have ord: "\<forall>c\<in>dom ?p. the (?p c) \<noteq> [] \<and> subseq (the (?p c)) ?vs"
    unfolding dom using ne by (auto simp: subseq_filter_zip)
  show ?thesis
    apply (rule exI[of _ ?p], rule exI[of _ assign])
    using res a(1,2) dom ord ms' ln' by simp
qed

theorem ClusteredPartition_is_partition_witness:
  "[Vector2d 0 0, Vector2d 4 0] \<noteq> []
   \<and> (\<exists>p. ClusteredPartition [Vector2d 0 0, Vector2d 4 0] (\<lambda>n. [0, 1])
              \<lparr>data = [Vector2d 1 0, Vector2d 5 0, Vector2d 1 0], creator = vector2Creator\<rparr> = Inr p
        \<and> (\<Sum>c\<in>dom p. mset (the (p c))) = mset [Vector2d 1 0, Vector2d 5 0, Vector2d 1 0]
        \<and> (\<Sum>c\<in>dom p. length (the (p c))) = 3)"
proof -
  let ?cl = "[Vector2d 0 0, Vector2d 4 0]"
  let ?ds = "\<lparr>data = [Vector2d 1 0, Vector2d 5 0, Vector2d 1 0], creator = vector2Creator\<rparr>"
  have h: "?cl \<noteq> []" by simp
  from ClusteredPartition_is_partition[OF h, of "\<lambda>n. [0, 1]" ?ds]
  obtain p where
    "ClusteredPartition ?cl (\<lambda>n. [0, 1]) ?ds = Inr p"
    "(\<Sum>c\<in>dom p. mset (the (p c))) = mset (data ?ds)"
    "(\<Sum>c\<in>dom p. length (the (p c))) = length (data ?ds)"
    by blast
  then show ?thesis by auto
qed

end
